theory Spec2Isabelle
  imports Main "HOL-Library.Word"
begin

section \<open>blobfs: a read-only file system over a blob bucket\<close>

text \<open>
  A shallow embedding of \<^verbatim>\<open>blobfs.go\<close>. Go's \<^verbatim>\<open>int64\<close> is a 64-bit word read
  through \<open>sint\<close>; a \<^verbatim>\<open>[]byte\<close> is a list of 8-bit words; Go's \<^verbatim>\<open>(value, error)\<close>
  results are pairs with an \<open>error option\<close> (\<open>None\<close> is \<^verbatim>\<open>nil\<close>) where both parts
  may be set, and sums where exactly one is. Methods with a pointer receiver return the
  receiver next to their results.
\<close>

type_synonym int64 = "64 word"
type_synonym byte = "8 word"
type_synonym time = int

subsection \<open>Errors\<close>

text \<open>
  \<open>EOF\<close> is \<^verbatim>\<open>io.EOF\<close>, \<open>ErrNotExist\<close> and \<open>ErrInvalid\<close> are the sentinels of
  \<^verbatim>\<open>io/fs\<close>, \<open>ErrorString\<close> is a value of \<^verbatim>\<open>errors.New\<close>, \<open>PathError\<close> is
  \<^verbatim>\<open>fs.PathError{Op, Path, Err}\<close>, and \<open>BackendError\<close> is an error made by the bucket
  driver, with the driver's error code.
\<close>

datatype ErrorCode = NotFound | PermissionDenied | Internal | Unknown

datatype error =
    EOF
  | ErrNotExist
  | ErrInvalid
  | ErrorString string
  | PathError string string error
  | BackendError ErrorCode string

definition opOpen :: string where "opOpen = ''open''"
definition opRead :: string where "opRead = ''read''"
definition opSeek :: string where "opSeek = ''seek''"

subsection \<open>The bucket\<close>

text \<open>
  \<^verbatim>\<open>blob.ListObject\<close> and the fields of \<^verbatim>\<open>blob.Attributes\<close> that the package reads.
  A \<^verbatim>\<open>nil\<close> MD5 is the empty list; the zero \<^verbatim>\<open>time.Time\<close> is \<open>0\<close>.
\<close>

record ListObject =
  Key :: string
  ModTime :: time
  Size :: int64
  MD5 :: "byte list"
  IsDir :: bool

record Attributes =
  attr_ModTime :: time
  attr_Size :: int64
  attr_MD5 :: "byte list"

text \<open>
  A \<^verbatim>\<open>blob.Reader\<close> is read once and closed once by this package, so it is given by
  what its \<^verbatim>\<open>Read\<close> puts at the front of the buffer, the error \<^verbatim>\<open>Read\<close> returns with
  it, and the error of \<^verbatim>\<open>Close\<close>.
\<close>

record Reader =
  rd_data :: "byte list"
  rd_err :: "error option"
  rd_close :: "error option"

text \<open>
  The bucket is the package's parameter: what each of the three calls the package makes
  gives back. \<open>bucket_List prefix delimiter\<close> is the sequence of results that the
  iterator's \<^verbatim>\<open>Next\<close> gives before it is exhausted; a listing is finite.
\<close>

record Bucket =
  bucket_Attributes :: "string \<Rightarrow> error + Attributes"
  bucket_List :: "string \<Rightarrow> string \<Rightarrow> (error + ListObject) list"
  bucket_NewRangeReader :: "string \<Rightarrow> int64 \<Rightarrow> int64 \<Rightarrow> error + Reader"

text \<open>\<^verbatim>\<open>iter.Next\<close>: the next result and the rest of the iterator; \<^verbatim>\<open>io.EOF\<close> at the end.\<close>

fun iter_Next :: "(error + ListObject) list \<Rightarrow> (error + ListObject) \<times> (error + ListObject) list" where
  "iter_Next [] = (Inl EOF, [])"
| "iter_Next (r # rs) = (r, rs)"

text \<open>
  \<^verbatim>\<open>r.Read(b)\<close>: the buffer afterwards, the count and the error. The bytes go to the
  front of the buffer, whose length stays; the count is the number of bytes the reader
  gave (at most the length of the buffer, by the contract of \<^verbatim>\<open>io.Reader\<close>).
\<close>

definition Reader_Read :: "Reader \<Rightarrow> byte list \<Rightarrow> byte list \<times> nat \<times> error option" where
  "Reader_Read r b =
     (take (length b) (rd_data r @ drop (length (rd_data r)) b), length (rd_data r), rd_err r)"

subsection \<open>Go library functions\<close>

text \<open>\<^verbatim>\<open>strings.TrimSuffix\<close>.\<close>

definition TrimSuffix :: "string \<Rightarrow> string \<Rightarrow> string" where
  "TrimSuffix s suf =
     (if length suf \<le> length s \<and> drop (length s - length suf) s = suf
      then take (length s - length suf) s else s)"

text \<open>
  \<^verbatim>\<open>utf8.ValidString\<close>: \<open>rune_width\<close> is the length of the well-formed UTF-8 sequence
  at the front of the bytes, \<open>0\<close> when there is none.
\<close>

definition cont_byte :: "nat \<Rightarrow> bool" where
  "cont_byte b = (128 \<le> b \<and> b \<le> 191)"

fun rune_width :: "nat list \<Rightarrow> nat" where
  "rune_width [] = 0"
| "rune_width (a # rest) =
     (if a < 128 then 1
      else if 194 \<le> a \<and> a \<le> 223 then
        (case rest of b # _ \<Rightarrow> if cont_byte b then 2 else 0 | _ \<Rightarrow> 0)
      else if 224 \<le> a \<and> a \<le> 239 then
        (case rest of b # c # _ \<Rightarrow>
           if (if a = 224 then 160 \<le> b \<and> b \<le> 191
               else if a = 237 then 128 \<le> b \<and> b \<le> 159
               else cont_byte b) \<and> cont_byte c then 3 else 0
         | _ \<Rightarrow> 0)
      else if 240 \<le> a \<and> a \<le> 244 then
        (case rest of b # c # d # _ \<Rightarrow>
           if (if a = 240 then 144 \<le> b \<and> b \<le> 191
               else if a = 244 then 128 \<le> b \<and> b \<le> 143
               else cont_byte b) \<and> cont_byte c \<and> cont_byte d then 4 else 0
         | _ \<Rightarrow> 0)
      else 0)"

function utf8_valid :: "nat list \<Rightarrow> bool" where
  "utf8_valid bs =
     (if bs = [] then True
      else if rune_width bs = 0 then False
      else utf8_valid (drop (rune_width bs) bs))"
  by pat_completeness auto
termination
  by (relation "measure length") auto

definition ValidString :: "string \<Rightarrow> bool" where
  "ValidString s = utf8_valid (map of_char s)"

text \<open>
  \<^verbatim>\<open>fs.ValidPath\<close>: \<open>ValidPath_elems\<close> is its loop over the slash-separated elements.
\<close>

function ValidPath_elems :: "string \<Rightarrow> bool" where
  "ValidPath_elems name =
     (let elem = takeWhile (\<lambda>c. c \<noteq> CHR ''/'') name;
          rest = dropWhile (\<lambda>c. c \<noteq> CHR ''/'') name
      in if elem = [] \<or> elem = ''.'' \<or> elem = ''..'' then False
         else if rest = [] then True
         else ValidPath_elems (tl rest))"
  by pat_completeness auto
termination
proof (relation "measure length")
  show "wf (measure length)" by simp
next
  fix name elem rest :: string
  assume r: "rest = dropWhile (\<lambda>c. c \<noteq> CHR ''/'') name" and ne: "rest \<noteq> []"
  have "length rest \<le> length name"
    unfolding r by (rule length_dropWhile_le)
  moreover from ne have "length (tl rest) < length rest"
    by (cases rest) simp_all
  ultimately show "(tl rest, name) \<in> measure length" by simp
qed

definition ValidPath :: "string \<Rightarrow> bool" where
  "ValidPath name = (ValidString name \<and> (name = ''.'' \<or> ValidPath_elems name))"

definition SeekStart :: int where "SeekStart = 0"
definition SeekCurrent :: int where "SeekCurrent = 1"
definition SeekEnd :: int where "SeekEnd = 2"

subsection \<open>Entries\<close>

text \<open>\<^verbatim>\<open>fileListEntry\<close> wraps one listed object; its methods read the object's fields.\<close>

record fileListEntry =
  obj :: ListObject

definition rootFile :: fileListEntry where
  "rootFile = \<lparr>obj = \<lparr>Key = [], ModTime = 0, Size = 0, MD5 = [], IsDir = True\<rparr>\<rparr>"

definition fileListEntry_Size :: "fileListEntry \<Rightarrow> int64" where
  "fileListEntry_Size e = Size (obj e)"

definition fileListEntry_IsDir :: "fileListEntry \<Rightarrow> bool" where
  "fileListEntry_IsDir e = IsDir (obj e)"

definition fileListEntry_Path :: "fileListEntry \<Rightarrow> string" where
  "fileListEntry_Path e = Key (obj e)"

text \<open>\<^verbatim>\<open>strings.Split\<close> with the separator \<^verbatim>\<open>/\<close>: the empty string splits into one empty piece.\<close>

fun Split_slash :: "string \<Rightarrow> string list" where
  "Split_slash [] = [] # []"
| "Split_slash (c # cs) =
     (if c = CHR ''/'' then [] # Split_slash cs
      else case Split_slash cs of
             [] \<Rightarrow> [c] # []
           | piece # pieces \<Rightarrow> (c # piece) # pieces)"

definition fileListEntry_Name :: "fileListEntry \<Rightarrow> string" where
  "fileListEntry_Name e =
     (if Key (obj e) = [] then ''.''
      else
        let name0 = Key (obj e);
            name = (if last name0 = CHR ''/'' then butlast name0 else name0);
            slice = Split_slash name
        in last slice)"

subsection \<open>Path resolution\<close>

definition searchDir :: "Bucket \<Rightarrow> string \<Rightarrow> error + fileListEntry" where
  "searchDir bucket name0 =
     (let name = TrimSuffix name0 ''/'';
          iter = bucket_List bucket name ''/''
      in case fst (iter_Next iter) of
           Inl err \<Rightarrow> if err = EOF then Inl ErrNotExist else Inl err
         | Inr ob \<Rightarrow> if Key ob = name @ ''/'' then Inr \<lparr>obj = ob\<rparr> else Inl ErrNotExist)"

definition lookup :: "Bucket \<Rightarrow> string \<Rightarrow> error + fileListEntry" where
  "lookup bucket name =
     (if \<not> ValidPath name then Inl ErrInvalid
      else if name = ''.'' then Inr rootFile
      else case bucket_Attributes bucket name of
             Inr attr \<Rightarrow>
               Inr \<lparr>obj = \<lparr>Key = name, ModTime = attr_ModTime attr, Size = attr_Size attr,
                            MD5 = attr_MD5 attr, IsDir = False\<rparr>\<rparr>
           | Inl err \<Rightarrow> searchDir bucket name)"

subsection \<open>Open files\<close>

text \<open>The handle's \<^verbatim>\<open>bucket\<close> field is the bucket every operation takes as its argument.\<close>

record openFile =
  f_self :: fileListEntry
  f_offset :: int64

definition newOpenFile :: "fileListEntry \<Rightarrow> error + openFile" where
  "newOpenFile entry = Inr \<lparr>f_self = entry, f_offset = 0\<rparr>"

text \<open>
  \<^verbatim>\<open>Read\<close>, \<^verbatim>\<open>ReadAt\<close> and \<^verbatim>\<open>Seek\<close> return the handle after the call, the buffer
  after the call (for the two reads), the count or position, and the error.
\<close>

definition Read :: "Bucket \<Rightarrow> openFile \<Rightarrow> byte list \<Rightarrow> openFile \<times> byte list \<times> nat \<times> error option" where
  "Read bucket f b =
     (if length b = 0 then (f, b, 0, None)
      else if sint (fileListEntry_Size (f_self f)) \<le> sint (f_offset f) then (f, b, 0, Some EOF)
      else case bucket_NewRangeReader bucket (fileListEntry_Path (f_self f)) (f_offset f)
                  (of_nat (length b)) of
             Inl err \<Rightarrow> (f, b, 0, Some (PathError opRead (fileListEntry_Path (f_self f)) err))
           | Inr r \<Rightarrow>
               (case Reader_Read r b of (b', sz, err) \<Rightarrow>
                  let f' = f\<lparr>f_offset := f_offset f + of_nat sz\<rparr>
                  in if err \<noteq> None then (f', b', sz, err)
                     else (f', b', sz, rd_close r)))"

definition ReadAt :: "Bucket \<Rightarrow> openFile \<Rightarrow> byte list \<Rightarrow> int64 \<Rightarrow> openFile \<times> byte list \<times> nat \<times> error option" where
  "ReadAt bucket f b offset =
     (if length b = 0 then (f, b, 0, None)
      else if sint (fileListEntry_Size (f_self f)) \<le> sint offset then (f, b, 0, Some EOF)
      else case bucket_NewRangeReader bucket (fileListEntry_Path (f_self f)) offset
                  (of_nat (length b)) of
             Inl err \<Rightarrow> (f, b, 0, Some (PathError opRead (fileListEntry_Path (f_self f)) err))
           | Inr r \<Rightarrow>
               (case Reader_Read r b of (b', sz, err) \<Rightarrow>
                  if offset + of_nat sz = fileListEntry_Size (f_self f) then (f, b', sz, Some EOF)
                  else if err \<noteq> None then (f, b', sz, err)
                  else (f, b', sz, rd_close r)))"

definition Seek :: "openFile \<Rightarrow> int64 \<Rightarrow> int \<Rightarrow> openFile \<times> int64 \<times> error option" where
  "Seek f offset0 whence =
     (if whence \<noteq> SeekStart \<and> whence \<noteq> SeekCurrent \<and> whence \<noteq> SeekEnd
      then (f, 0, Some (PathError opSeek (fileListEntry_Path (f_self f)) ErrInvalid))
      else
        let offset = (if whence = SeekStart then offset0
                      else if whence = SeekCurrent then offset0 + f_offset f
                      else offset0 + fileListEntry_Size (f_self f))
        in if sint offset < 0 \<or> sint (fileListEntry_Size (f_self f)) < sint offset
           then (f, 0, Some (PathError opSeek (fileListEntry_Path (f_self f)) ErrInvalid))
           else (f\<lparr>f_offset := offset\<rparr>, offset, None))"

subsection \<open>Open directories\<close>

text \<open>
  The cursor of a directory handle is a Go \<^verbatim>\<open>int\<close>. It starts at \<open>0\<close> and only
  \<^verbatim>\<open>ReadDir\<close> moves it, by a count that keeps it at most the number of children, so
  its arithmetic never leaves the range of \<^verbatim>\<open>int\<close> and is written on \<open>int\<close>.
\<close>

record openDir =
  d_self :: fileListEntry
  d_entries :: "fileListEntry list"
  d_offset :: int

text \<open>The loop of \<^verbatim>\<open>newOpenDir\<close> over the iterator, with the files collected so far.\<close>

fun newOpenDir_loop :: "(error + ListObject) list \<Rightarrow> fileListEntry list \<Rightarrow> error + fileListEntry list" where
  "newOpenDir_loop [] files = Inr files"
| "newOpenDir_loop (Inl err # iter) files = (if err = EOF then Inr files else Inl err)"
| "newOpenDir_loop (Inr ob # iter) files = newOpenDir_loop iter (files @ [\<lparr>obj = ob\<rparr>])"

definition newOpenDir :: "fileListEntry \<Rightarrow> Bucket \<Rightarrow> error + openDir" where
  "newOpenDir entry bucket =
     (case newOpenDir_loop (bucket_List bucket (fileListEntry_Path entry) ''/'') [] of
        Inl err \<Rightarrow> Inl err
      | Inr files \<Rightarrow> Inr \<lparr>d_self = entry, d_entries = files, d_offset = 0\<rparr>)"

definition openDir_Read :: "openDir \<Rightarrow> byte list \<Rightarrow> nat \<times> error option" where
  "openDir_Read d b =
     (0, Some (PathError opRead (fileListEntry_Path (d_self d)) (ErrorString ''is a directory'')))"

text \<open>
  \<^verbatim>\<open>ReadDir\<close> on a handle. \<open>None\<close> is a run-time panic: \<^verbatim>\<open>make\<close> with a negative
  length, or an index outside \<^verbatim>\<open>d.entries\<close>. A \<^verbatim>\<open>nil\<close> slice is the empty list.
\<close>

definition ReadDir :: "openDir \<Rightarrow> int \<Rightarrow> (openDir \<times> fileListEntry list \<times> error option) option" where
  "ReadDir d n =
     (let count0 = int (length (d_entries d)) - d_offset d;
          count = (if 0 < n \<and> n < count0 then n else count0)
      in if count = 0 then (if n \<le> 0 then Some (d, [], None) else Some (d, [], Some EOF))
         else if count < 0 then None
         else if d_offset d < 0 \<or> int (length (d_entries d)) < d_offset d + count then None
         else Some (d\<lparr>d_offset := d_offset d + count\<rparr>,
                    take (nat count) (drop (nat (d_offset d)) (d_entries d)), None))"

subsection \<open>The file system\<close>

datatype File = OpenFile openFile | OpenDir openDir

definition Open :: "Bucket \<Rightarrow> string \<Rightarrow> error + File" where
  "Open bucket name =
     (case lookup bucket name of
        Inl err \<Rightarrow> Inl (PathError opOpen name err)
      | Inr e \<Rightarrow>
          if fileListEntry_IsDir e then
            (case newOpenDir e bucket of
               Inl err \<Rightarrow> Inl (PathError opOpen name err)
             | Inr dir \<Rightarrow> Inr (OpenDir dir))
          else
            (case newOpenFile e of
               Inl err \<Rightarrow> Inl (PathError opOpen name err)
             | Inr file \<Rightarrow> Inr (OpenFile file)))"

text \<open>
  \<^verbatim>\<open>FS.ReadFile\<close>. \<open>None\<close> is the panic of \<^verbatim>\<open>make\<close> on a negative size; otherwise the
  bytes (a \<^verbatim>\<open>nil\<close> slice is the empty list) and the error.
\<close>

definition ReadFile :: "Bucket \<Rightarrow> string \<Rightarrow> (byte list \<times> error option) option" where
  "ReadFile bucket name =
     (case Open bucket name of
        Inl err \<Rightarrow> Some ([], Some err)
      | Inr (OpenDir d) \<Rightarrow>
          Some ([], Some (PathError opRead name (ErrorString ''is a directory'')))
      | Inr (OpenFile ofile) \<Rightarrow>
          if sint (fileListEntry_Size (f_self ofile)) < 0 then None
          else
            let b = replicate (nat (sint (fileListEntry_Size (f_self ofile)))) (0 :: byte)
            in case ReadAt bucket ofile b 0 of (ofile', b', n, err) \<Rightarrow>
                 if err \<noteq> Some EOF then Some ([], err) else Some (b', None))"

definition FS_ReadDir :: "Bucket \<Rightarrow> string \<Rightarrow> (fileListEntry list \<times> error option) option" where
  "FS_ReadDir bucket name =
     (case Open bucket name of
        Inl err \<Rightarrow> Some ([], Some err)
      | Inr (OpenFile f) \<Rightarrow>
          Some ([], Some (PathError opRead name (ErrorString ''not a directory'')))
      | Inr (OpenDir dir) \<Rightarrow>
          (case ReadDir dir (- 1) of
             None \<Rightarrow> None
           | Some (dir', entries, err) \<Rightarrow> Some (entries, err)))"

subsection \<open>A small bucket\<close>

text \<open>
  A bucket held in memory: the objects are given in key order with their bytes. A listing
  takes the keys that start with the prefix and collapses the keys that have the
  delimiter (one character) after the prefix into one directory result each.
\<close>

definition dir_object :: "string \<Rightarrow> ListObject" where
  "dir_object k = \<lparr>Key = k, ModTime = 0, Size = 0, MD5 = [], IsDir = True\<rparr>"

definition blob_object :: "string \<Rightarrow> int64 \<Rightarrow> ListObject" where
  "blob_object k n = \<lparr>Key = k, ModTime = 0, Size = n, MD5 = [], IsDir = False\<rparr>"

definition list_result :: "string \<Rightarrow> string \<Rightarrow> string \<times> byte list \<Rightarrow> ListObject" where
  "list_result prefix delimiter kv =
     (let rest = drop (length prefix) (fst kv);
          head = takeWhile (\<lambda>c. [c] \<noteq> delimiter) rest
      in if length head < length rest then dir_object (prefix @ head @ delimiter)
         else blob_object (fst kv) (of_nat (length (snd kv))))"

definition memory_bucket :: "(string \<times> byte list) list \<Rightarrow> Bucket" where
  "memory_bucket objects =
     \<lparr>bucket_Attributes = (\<lambda>key.
        case map_of objects key of
          None \<Rightarrow> Inl (BackendError NotFound ''blob not found'')
        | Some content \<Rightarrow>
            Inr \<lparr>attr_ModTime = 0, attr_Size = of_nat (length content), attr_MD5 = []\<rparr>),
      bucket_List = (\<lambda>prefix delimiter.
        map Inr (remdups_adj (map (list_result prefix delimiter)
          (filter (\<lambda>kv. take (length prefix) (fst kv) = prefix) objects)))),
      bucket_NewRangeReader = (\<lambda>key offset len.
        case map_of objects key of
          None \<Rightarrow> Inl (BackendError NotFound ''blob not found'')
        | Some content \<Rightarrow>
            Inr \<lparr>rd_data = take (unat len) (drop (unat offset) content), rd_err = None,
                 rd_close = None\<rparr>)\<rparr>"

text \<open>
  The objects \<^verbatim>\<open>dir1/dir1-1/fuga.txt\<close>, \<^verbatim>\<open>dir1/hoge.txt\<close>, \<^verbatim>\<open>dir2/hello.txt\<close>,
  \<^verbatim>\<open>empty.txt\<close> (no bytes) and \<^verbatim>\<open>foo.txt\<close> (the five bytes of \<^verbatim>\<open>hello\<close>).
\<close>

definition hello :: "byte list" where
  "hello = [104, 101, 108, 108, 111]"

definition testdata :: Bucket where
  "testdata = memory_bucket
     [(''dir1/dir1-1/fuga.txt'', [102, 117, 103, 97]), (''dir1/hoge.txt'', [104, 111, 103, 101]),
      (''dir2/hello.txt'', hello), (''empty.txt'', []), (''foo.txt'', hello)]"

text \<open>A bucket whose driver refuses every call, and one whose listings break.\<close>

definition denied :: Bucket where
  "denied =
     \<lparr>bucket_Attributes = (\<lambda>key. Inl (BackendError PermissionDenied ''access denied'')),
      bucket_List = (\<lambda>prefix delimiter. []),
      bucket_NewRangeReader = (\<lambda>key offset len. Inl (BackendError PermissionDenied ''access denied''))\<rparr>"

definition broken_listing :: Bucket where
  "broken_listing =
     \<lparr>bucket_Attributes = (\<lambda>key. Inl (BackendError NotFound ''blob not found'')),
      bucket_List = (\<lambda>prefix delimiter. [Inl (BackendError Internal ''connection reset'')]),
      bucket_NewRangeReader = (\<lambda>key offset len. Inl (BackendError NotFound ''blob not found''))\<rparr>"

definition foo_entry :: fileListEntry where
  "foo_entry = \<lparr>obj = blob_object ''foo.txt'' 5\<rparr>"

definition foo_file :: openFile where
  "foo_file = \<lparr>f_self = foo_entry, f_offset = 2\<rparr>"

definition root_dir :: openDir where
  "root_dir =
     \<lparr>d_self = rootFile,
      d_entries = [\<lparr>obj = dir_object ''dir1/''\<rparr>, \<lparr>obj = dir_object ''dir2/''\<rparr>,
                   \<lparr>obj = blob_object ''empty.txt'' 0\<rparr>, \<lparr>obj = blob_object ''foo.txt'' 5\<rparr>],
      d_offset = 3\<rparr>"

declare ValidPath_elems.simps [simp del]
declare utf8_valid.simps [simp del]

section \<open>Arithmetic on 64-bit signed integers\<close>

text \<open>
  Adding a non-negative \<^verbatim>\<open>int64\<close> either gives the sum or overflows to a negative
  value.
\<close>

lemma sint_add_int64:
  fixes a c :: int64
  assumes "0 \<le> sint c"
  shows "sint (a + c) = sint a + sint c \<or> (sint (a + c) < 0 \<and> 2 ^ 63 \<le> sint a + sint c)"
proof -
  define t where "t = signed_take_bit 63 (sint a + sint c)"
  have eq: "sint (a + c) = t"
    by (simp add: sint_word_ariths t_def)
  have lo: "- 9223372036854775808 \<le> sint a" using sint_greater_eq [of a] by simp
  have hi: "sint a < 9223372036854775808" using sint_less [of a] by simp
  have hic: "sint c < 9223372036854775808" using sint_less [of c] by simp
  show ?thesis
  proof (cases "sint a + sint c < 9223372036854775808")
    case True
    have "signed_take_bit 63 (sint a + sint c) = sint a + sint c"
    proof (rule signed_take_bit_int_eq_self)
      from lo assms show "- (2 ^ 63) \<le> sint a + sint c" by simp
      from True show "sint a + sint c < 2 ^ 63" by simp
    qed
    with eq show ?thesis by (simp add: t_def)
  next
    case False
    then have ge: "(2 :: int) ^ 63 \<le> sint a + sint c" by simp
    from signed_take_bit_int_less_eq [OF ge]
    have "t \<le> sint a + sint c - 18446744073709551616" by (simp add: t_def)
    with hi hic have "t < 0" by linarith
    with eq ge show ?thesis by simp
  qed
qed

lemma seek_range_int64:
  fixes off base S :: int64
  assumes "0 \<le> sint base"
  shows "(sint (off + base) < 0 \<or> sint S < sint (off + base)) \<longleftrightarrow>
         (sint off + sint base < 0 \<or> sint S < sint off + sint base)"
    and "\<not> (sint off + sint base < 0 \<or> sint S < sint off + sint base) \<Longrightarrow>
         sint (off + base) = sint off + sint base"
proof -
  have hiS: "sint S < 2 ^ 63" using sint_less [of S] by simp
  from sint_add_int64 [OF assms, of off] hiS
  show "(sint (off + base) < 0 \<or> sint S < sint (off + base)) \<longleftrightarrow>
         (sint off + sint base < 0 \<or> sint S < sint off + sint base)"
    by auto
  from sint_add_int64 [OF assms, of off] hiS
  show "\<not> (sint off + sint base < 0 \<or> sint S < sint off + sint base) \<Longrightarrow>
         sint (off + base) = sint off + sint base"
    by auto
qed

lemma seek_range_end_int64:
  fixes off S :: int64
  shows "(sint (off + S) < 0 \<or> sint S < sint (off + S)) \<longleftrightarrow>
         (sint off + sint S < 0 \<or> sint S < sint off + sint S)"
    and "\<not> (sint off + sint S < 0 \<or> sint S < sint off + sint S) \<Longrightarrow>
         sint (off + S) = sint off + sint S"
proof -
  show "(sint (off + S) < 0 \<or> sint S < sint (off + S)) \<longleftrightarrow>
         (sint off + sint S < 0 \<or> sint S < sint off + sint S)"
  proof (cases "0 \<le> sint S")
    case True
    then show ?thesis by (rule seek_range_int64(1))
  next
    case False
    then show ?thesis by linarith
  qed
  show "\<not> (sint off + sint S < 0 \<or> sint S < sint off + sint S) \<Longrightarrow>
         sint (off + S) = sint off + sint S"
  proof (cases "0 \<le> sint S")
    case True
    assume "\<not> (sint off + sint S < 0 \<or> sint S < sint off + sint S)"
    with True show ?thesis by (rule seek_range_int64(2))
  next
    case False
    assume "\<not> (sint off + sint S < 0 \<or> sint S < sint off + sint S)"
    with False show ?thesis by linarith
  qed
qed

section \<open>Seeking in an open file\<close>

text \<open>
  C6. On a handle whose cursor is not negative, on an entry of size \<open>S\<close>, \<^verbatim>\<open>Seek\<close>
  takes the position asked for, as an unbounded integer, from the start, from the cursor
  or from the end. An unrecognised \<^verbatim>\<open>whence\<close>, or a position outside \<open>[0, S]\<close>, gives
  the invalid-argument error and leaves the handle as it was. Otherwise the cursor becomes
  that position, which is also the value returned. This holds where the 64-bit addition
  of the code overflows, too: the wrapped sum is negative there.
\<close>

theorem Seek_position:
  fixes f :: openFile and offset :: int64 and whence :: int
  assumes cur: "0 \<le> sint (f_offset f)"
  defines "S \<equiv> sint (fileListEntry_Size (f_self f))"
  defines "cand \<equiv> (if whence = SeekStart then sint offset
                     else if whence = SeekCurrent then sint offset + sint (f_offset f)
                     else sint offset + S)"
  shows "Seek f offset whence =
           (if (whence = SeekStart \<or> whence = SeekCurrent \<or> whence = SeekEnd)
                \<and> 0 \<le> cand \<and> cand \<le> S
            then (f\<lparr>f_offset := word_of_int cand\<rparr>, word_of_int cand, None)
            else (f, 0, Some (PathError opSeek (fileListEntry_Path (f_self f)) ErrInvalid)))
         \<and> (0 \<le> cand \<and> cand \<le> S \<longrightarrow> sint (word_of_int cand :: int64) = cand)"
proof -
  have second: "0 \<le> cand \<and> cand \<le> S \<longrightarrow> sint (word_of_int cand :: int64) = cand"
  proof
    assume a: "0 \<le> cand \<and> cand \<le> S"
    have "S < 9223372036854775808"
      using sint_less [of "fileListEntry_Size (f_self f)"] by (simp add: S_def)
    with a have "signed_take_bit 63 cand = cand"
      by (intro signed_take_bit_int_eq_self) simp_all
    then show "sint (word_of_int cand :: int64) = cand"
      by (simp add: sint_sbintrunc')
  qed
  consider (from_start) "whence = SeekStart" | (from_current) "whence = SeekCurrent"
    | (from_end) "whence = SeekEnd"
    | (unrecognised) "whence \<noteq> SeekStart" "whence \<noteq> SeekCurrent" "whence \<noteq> SeekEnd"
    by blast
  then have "Seek f offset whence =
           (if (whence = SeekStart \<or> whence = SeekCurrent \<or> whence = SeekEnd)
                \<and> 0 \<le> cand \<and> cand \<le> S
            then (f\<lparr>f_offset := word_of_int cand\<rparr>, word_of_int cand, None)
            else (f, 0, Some (PathError opSeek (fileListEntry_Path (f_self f)) ErrInvalid)))"
  proof cases
    case from_start
    then show ?thesis
      by (auto simp: Seek_def cand_def S_def Let_def)
  next
    case from_current
    then have c: "cand = sint offset + sint (f_offset f)"
      by (simp add: cand_def SeekStart_def SeekCurrent_def)
    note r = seek_range_int64 [OF cur, of offset "fileListEntry_Size (f_self f)"]
    show ?thesis
    proof (cases "0 \<le> cand \<and> cand \<le> S")
      case True
      then have n: "\<not> (sint offset + sint (f_offset f) < 0
                   \<or> sint (fileListEntry_Size (f_self f)) < sint offset + sint (f_offset f))"
        by (simp add: c S_def not_less)
      from r(2) [OF n] have e: "sint (offset + f_offset f) = cand" by (simp add: c)
      have w2: "(word_of_int cand :: int64) = offset + f_offset f" by (simp add: c)
      from True e show ?thesis
        by (simp add: Seek_def from_current w2 S_def not_less Let_def
            SeekStart_def SeekCurrent_def SeekEnd_def)
    next
      case False
      then have "sint offset + sint (f_offset f) < 0
                  \<or> sint (fileListEntry_Size (f_self f)) < sint offset + sint (f_offset f)"
        by (auto simp: c S_def)
      with r(1) have "sint (offset + f_offset f) < 0
                  \<or> sint (fileListEntry_Size (f_self f)) < sint (offset + f_offset f)"
        by simp
      with False show ?thesis
        by (auto simp: Seek_def from_current Let_def SeekStart_def SeekCurrent_def SeekEnd_def)
    qed
  next
    case from_end
    then have c: "cand = sint offset + S"
      by (simp add: cand_def SeekStart_def SeekCurrent_def SeekEnd_def)
    note r = seek_range_end_int64 [of offset "fileListEntry_Size (f_self f)"]
    show ?thesis
    proof (cases "0 \<le> cand \<and> cand \<le> S")
      case True
      then have n: "\<not> (sint offset + sint (fileListEntry_Size (f_self f)) < 0
                   \<or> sint (fileListEntry_Size (f_self f))
                      < sint offset + sint (fileListEntry_Size (f_self f)))"
        by (simp add: c S_def not_less)
      from r(2) [OF n] have e: "sint (offset + fileListEntry_Size (f_self f)) = cand"
        by (simp add: c S_def)
      have w2: "(word_of_int cand :: int64) = offset + fileListEntry_Size (f_self f)"
        by (simp add: c S_def)
      from True e show ?thesis
        by (simp add: Seek_def from_end w2 S_def not_less Let_def
            SeekStart_def SeekCurrent_def SeekEnd_def)
    next
      case False
      then have "sint offset + sint (fileListEntry_Size (f_self f)) < 0
                  \<or> sint (fileListEntry_Size (f_self f))
                     < sint offset + sint (fileListEntry_Size (f_self f))"
        by (auto simp: c S_def)
      with r(1) have "sint (offset + fileListEntry_Size (f_self f)) < 0
                  \<or> sint (fileListEntry_Size (f_self f))
                     < sint (offset + fileListEntry_Size (f_self f))"
        by simp
      with False show ?thesis
        by (auto simp: Seek_def from_end Let_def SeekStart_def SeekCurrent_def SeekEnd_def)
    qed
  next
    case unrecognised
    then show ?thesis
      by (simp add: Seek_def)
  qed
  then show ?thesis using second by (rule conjI)
qed

text \<open>
  On \<^verbatim>\<open>foo.txt\<close> (size 5) with the cursor at 2: seeking to 5 from the start and by 3 from
  the cursor succeed; one past the end, \<open>-1\<close>, an unknown \<^verbatim>\<open>whence\<close>, and a step from
  the cursor that overflows \<^verbatim>\<open>int64\<close> fail and leave the cursor at 2.
\<close>

theorem Seek_position_witness:
  "0 \<le> sint (f_offset foo_file)
   \<and> Seek foo_file 5 SeekStart = (foo_file\<lparr>f_offset := 5\<rparr>, 5, None)
   \<and> Seek foo_file 3 SeekCurrent = (foo_file\<lparr>f_offset := 5\<rparr>, 5, None)
   \<and> Seek foo_file 1 SeekEnd = (foo_file, 0, Some (PathError ''seek'' ''foo.txt'' ErrInvalid))
   \<and> Seek foo_file (- 1) SeekStart = (foo_file, 0, Some (PathError ''seek'' ''foo.txt'' ErrInvalid))
   \<and> Seek foo_file 0 3 = (foo_file, 0, Some (PathError ''seek'' ''foo.txt'' ErrInvalid))
   \<and> Seek foo_file 9223372036854775807 SeekCurrent
       = (foo_file, 0, Some (PathError ''seek'' ''foo.txt'' ErrInvalid))"
proof -
  have h: "0 \<le> sint (f_offset foo_file)"
    by (simp add: foo_file_def)
  have s: "sint (fileListEntry_Size (f_self foo_file)) = 5"
     "fileListEntry_Path (f_self foo_file) = ''foo.txt''" "sint (f_offset foo_file) = 2"
    by (simp_all add: foo_file_def foo_entry_def blob_object_def fileListEntry_Size_def
        fileListEntry_Path_def)
  show ?thesis
    using h Seek_position [OF h, of 5 SeekStart] Seek_position [OF h, of 3 SeekCurrent]
      Seek_position [OF h, of 1 SeekEnd] Seek_position [OF h, of "- 1" SeekStart]
      Seek_position [OF h, of 0 3] Seek_position [OF h, of 9223372036854775807 SeekCurrent]
    by (simp add: s SeekStart_def SeekCurrent_def SeekEnd_def opSeek_def)
qed

section \<open>Paging through an open directory\<close>

text \<open>
  C2, as the code has it. On a directory handle with \<open>k\<close> children not yet returned
  (the cursor within the list of children): \<^verbatim>\<open>ReadDir(n)\<close> with \<open>n > 0\<close> and \<open>k > 0\<close>
  returns the next \<open>min n k\<close> children with no error and advances the cursor by that
  count, also when \<open>k < n\<close>; with \<open>n > 0\<close> and \<open>k = 0\<close> it returns nothing together with
  the end-of-stream signal; with \<open>n \<le> 0\<close> it returns all \<open>k\<close> remaining children with no
  error (nothing and no error when \<open>k = 0\<close>) and moves the cursor to the end.
\<close>

theorem ReadDir_pagination:
  fixes d :: openDir and n :: int
  assumes lo: "0 \<le> d_offset d" and hi: "d_offset d \<le> int (length (d_entries d))"
  defines "k \<equiv> int (length (d_entries d)) - d_offset d"
  shows "ReadDir d n =
           (if 0 < n then
              (if k = 0 then Some (d, [], Some EOF)
               else Some (d\<lparr>d_offset := d_offset d + min n k\<rparr>,
                          take (nat (min n k)) (drop (nat (d_offset d)) (d_entries d)), None))
            else Some (d\<lparr>d_offset := d_offset d + k\<rparr>, drop (nat (d_offset d)) (d_entries d), None))
         \<and> (0 < n \<longrightarrow>
              int (length (take (nat (min n k)) (drop (nat (d_offset d)) (d_entries d)))) = min n k)
         \<and> int (length (drop (nat (d_offset d)) (d_entries d))) = k"
proof (intro conjI)
  have k0: "0 \<le> k" using hi by (simp add: k_def)
  show "ReadDir d n =
           (if 0 < n then
              (if k = 0 then Some (d, [], Some EOF)
               else Some (d\<lparr>d_offset := d_offset d + min n k\<rparr>,
                          take (nat (min n k)) (drop (nat (d_offset d)) (d_entries d)), None))
            else Some (d\<lparr>d_offset := d_offset d + k\<rparr>, drop (nat (d_offset d)) (d_entries d), None))"
  proof (cases "0 < n")
    case True
    show ?thesis
    proof (cases "k = 0")
      case True
      with \<open>0 < n\<close> show ?thesis
        by (simp add: ReadDir_def Let_def k_def)
    next
      case False
      with k0 have kp: "0 < k" by simp
      with \<open>0 < n\<close> lo hi show ?thesis
        by (auto simp: ReadDir_def Let_def k_def min_def)
    qed
  next
    case False
    with lo hi k0 show ?thesis
      by (auto simp: ReadDir_def Let_def k_def)
  qed
  have "length (drop (nat (d_offset d)) (d_entries d)) = nat k"
    using lo hi unfolding k_def length_drop by linarith
  with k0 show len: "int (length (drop (nat (d_offset d)) (d_entries d))) = k"
    by simp
  show "0 < n \<longrightarrow>
          int (length (take (nat (min n k)) (drop (nat (d_offset d)) (d_entries d)))) = min n k"
  proof
    assume "0 < n"
    with len k0 show "int (length (take (nat (min n k)) (drop (nat (d_offset d)) (d_entries d))))
        = min n k"
      unfolding length_take by linarith
  qed
qed

text \<open>
  The root handle with three of its four children returned: one more child on request,
  then the end-of-stream signal for \<open>n = 1\<close> and an empty result with no error for
  \<open>n = -1\<close>.
\<close>

theorem ReadDir_pagination_witness:
  "0 \<le> d_offset root_dir \<and> d_offset root_dir \<le> int (length (d_entries root_dir))
   \<and> ReadDir root_dir 1 =
       Some (root_dir\<lparr>d_offset := 4\<rparr>, [\<lparr>obj = blob_object ''foo.txt'' 5\<rparr>], None)
   \<and> ReadDir (root_dir\<lparr>d_offset := 4\<rparr>) 1 = Some (root_dir\<lparr>d_offset := 4\<rparr>, [], Some EOF)
   \<and> ReadDir (root_dir\<lparr>d_offset := 4\<rparr>) (- 1) = Some (root_dir\<lparr>d_offset := 4\<rparr>, [], None)
   \<and> ReadDir (root_dir\<lparr>d_offset := 2\<rparr>) (- 1) =
       Some (root_dir\<lparr>d_offset := 4\<rparr>,
             [\<lparr>obj = blob_object ''empty.txt'' 0\<rparr>, \<lparr>obj = blob_object ''foo.txt'' 5\<rparr>], None)"
  using ReadDir_pagination [of root_dir 1] ReadDir_pagination [of "root_dir\<lparr>d_offset := 4\<rparr>" 1]
    ReadDir_pagination [of "root_dir\<lparr>d_offset := 4\<rparr>" "- 1"]
    ReadDir_pagination [of "root_dir\<lparr>d_offset := 2\<rparr>" "- 1"]
  by (simp add: root_dir_def)

text \<open>
  C2 as stated fails where fewer than \<open>n\<close> children remain but at least one does: with
  one child left, \<^verbatim>\<open>ReadDir(5)\<close> returns it with no error, not with the end-of-stream
  signal.
\<close>

theorem ReadDir_short_page_counterexample:
  "int (length (d_entries root_dir)) - d_offset root_dir = 1
   \<and> ReadDir root_dir 5 =
       Some (root_dir\<lparr>d_offset := 4\<rparr>, [\<lparr>obj = blob_object ''foo.txt'' 5\<rparr>], None)
   \<and> snd (snd (the (ReadDir root_dir 5))) \<noteq> Some EOF"
  by (simp add: ReadDir_def root_dir_def)

text \<open>
  The cursor of a directory handle stays within the list of children: it is 0 in a new
  handle, and \<^verbatim>\<open>ReadDir\<close> keeps it there and the children as they are.
\<close>

lemma newOpenDir_cursor:
  "newOpenDir entry bucket = Inr d \<Longrightarrow> d_offset d = 0 \<and> d_self d = entry"
  by (auto simp: newOpenDir_def split: sum.splits)

lemma ReadDir_cursor_range:
  assumes "0 \<le> d_offset d" "d_offset d \<le> int (length (d_entries d))"
    and "ReadDir d n = Some (d', es, err)"
  shows "0 \<le> d_offset d' \<and> d_offset d' \<le> int (length (d_entries d'))
         \<and> d_entries d' = d_entries d \<and> d_self d' = d_self d"
  using assms by (auto simp: ReadDir_def Let_def split: if_splits)

section \<open>Reading from an open file\<close>

lemma int64_sum_eq:
  fixes a S :: int64
  assumes "sint a + int n = sint S"
  shows "a + of_nat n = S"
proof -
  have "(word_of_int (sint a + int n) :: int64) = word_of_int (sint S)"
    by (simp only: assms)
  then show ?thesis by simp
qed

lemma int64_advance:
  fixes a :: int64
  assumes "sint a + int n < 2 ^ 63"
  shows "sint (a + of_nat n) = sint a + int n"
proof -
  have lo: "- (2 ^ 63) \<le> sint a" using sint_greater_eq [of a] by simp
  have "a + of_nat n = word_of_int (sint a + int n)" by simp
  then have "sint (a + of_nat n) = signed_take_bit 63 (sint a + int n)"
    by (simp only: sint_sbintrunc') simp
  also have "\<dots> = sint a + int n"
  proof (rule signed_take_bit_int_eq_self)
    from lo show "- (2 ^ 63) \<le> sint a + int n" by linarith
    from assms show "sint a + int n < 2 ^ 63" .
  qed
  finally show ?thesis .
qed

text \<open>
  C1. For a non-empty buffer, \<^verbatim>\<open>ReadAt\<close> at an offset at or past the size \<open>S\<close> of the
  entry returns 0 bytes and the end-of-stream signal. Whenever the offset plus the count
  it returns is \<open>S\<close>, the error it returns is the end-of-stream signal; in particular, when
  the range reader gives bytes that end exactly at \<open>S\<close>, \<^verbatim>\<open>ReadAt\<close> returns those bytes
  and the end-of-stream signal whatever the reader's own error was, \<^verbatim>\<open>nil\<close> included.
\<close>

theorem ReadAt_end_of_stream:
  fixes bucket :: Bucket and f :: openFile and b :: "byte list" and offset :: int64
  assumes nonempty: "b \<noteq> []"
  defines "S \<equiv> fileListEntry_Size (f_self f)"
  defines "res \<equiv> ReadAt bucket f b offset"
  shows "(sint S \<le> sint offset \<longrightarrow> res = (f, b, 0, Some EOF))
       \<and> (sint offset + int (fst (snd (snd res))) = sint S \<longrightarrow> snd (snd (snd res)) = Some EOF)
       \<and> (\<forall>r. sint offset < sint S
              \<and> bucket_NewRangeReader bucket (fileListEntry_Path (f_self f)) offset
                  (of_nat (length b)) = Inr r
              \<and> sint offset + int (length (rd_data r)) = sint S
            \<longrightarrow> res = (f, fst (Reader_Read r b), length (rd_data r), Some EOF))"
proof (intro conjI allI impI)
  assume "sint S \<le> sint offset"
  with nonempty show "res = (f, b, 0, Some EOF)"
    by (simp add: res_def ReadAt_def S_def)
next
  assume sum: "sint offset + int (fst (snd (snd res))) = sint S"
  show "snd (snd (snd res)) = Some EOF"
  proof (cases "sint S \<le> sint offset")
    case True
    with nonempty show ?thesis by (simp add: res_def ReadAt_def S_def)
  next
    case False
    show ?thesis
    proof (cases "bucket_NewRangeReader bucket (fileListEntry_Path (f_self f)) offset
                    (of_nat (length b))")
      case (Inl err)
      with nonempty False have "fst (snd (snd res)) = 0"
        by (simp add: res_def ReadAt_def S_def)
      with sum False show ?thesis by simp
    next
      case (Inr r)
      show ?thesis
      proof (cases "offset + of_nat (length (rd_data r)) = S")
        case True
        with nonempty False Inr show ?thesis
          by (simp add: res_def ReadAt_def S_def Reader_Read_def)
      next
        case neq: False
        with nonempty False Inr have "fst (snd (snd res)) = length (rd_data r)"
          by (simp add: res_def ReadAt_def S_def Reader_Read_def)
        with sum have "offset + of_nat (length (rd_data r)) = S"
          by (simp add: int64_sum_eq)
        with neq show ?thesis by simp
      qed
    qed
  qed
next
  fix r
  assume a: "sint offset < sint S
              \<and> bucket_NewRangeReader bucket (fileListEntry_Path (f_self f)) offset
                  (of_nat (length b)) = Inr r
              \<and> sint offset + int (length (rd_data r)) = sint S"
  then have "offset + of_nat (length (rd_data r)) = S"
    by (simp add: int64_sum_eq)
  with a nonempty show "res = (f, fst (Reader_Read r b), length (rd_data r), Some EOF)"
    by (simp add: res_def ReadAt_def S_def Reader_Read_def)
qed

text \<open>
  On \<^verbatim>\<open>foo.txt\<close> (\<^verbatim>\<open>hello\<close>, size 5) with a buffer of three bytes: at offset 5 nothing
  and the end-of-stream signal; at offset 2 the last three bytes and the end-of-stream
  signal in the same call, though the reader reported no error.
\<close>

theorem ReadAt_end_of_stream_witness:
  "[0, 0, 0 :: byte] \<noteq> []
   \<and> ReadAt testdata foo_file [0, 0, 0] 5 = (foo_file, [0, 0, 0], 0, Some EOF)
   \<and> ReadAt testdata foo_file [0, 0, 0] 2 = (foo_file, [108, 108, 111], 3, Some EOF)
   \<and> bucket_NewRangeReader testdata ''foo.txt'' 2 3
       = Inr \<lparr>rd_data = [108, 108, 111], rd_err = None, rd_close = None\<rparr>"
proof -
  have ne: "[0, 0, 0 :: byte] \<noteq> []" by simp
  have s: "fileListEntry_Size (f_self foo_file) = 5"
    "fileListEntry_Path (f_self foo_file) = ''foo.txt''"
    by (simp_all add: foo_file_def foo_entry_def blob_object_def fileListEntry_Size_def
        fileListEntry_Path_def)
  have r: "bucket_NewRangeReader testdata ''foo.txt'' 2 3
       = Inr \<lparr>rd_data = [108, 108, 111], rd_err = None, rd_close = None\<rparr>"
    by code_simp
  from ReadAt_end_of_stream [OF ne, where f = foo_file and offset = 5 and bucket = testdata]
  have a: "ReadAt testdata foo_file [0, 0, 0] 5 = (foo_file, [0, 0, 0], 0, Some EOF)"
    by (simp add: s)
  from ReadAt_end_of_stream [OF ne, where f = foo_file and offset = 2 and bucket = testdata] r
  have b: "ReadAt testdata foo_file [0, 0, 0] 2 = (foo_file, [108, 108, 111], 3, Some EOF)"
    by (simp add: s Reader_Read_def)
  from ne a b r show ?thesis by simp
qed

text \<open>
  C7. \<^verbatim>\<open>Read\<close> with an empty buffer returns 0 bytes and no error. With a non-empty
  buffer and the cursor at or past the size of the entry it returns 0 bytes and the
  end-of-stream signal. Otherwise it asks the bucket for one range reader at the cursor
  for the length of the buffer: when that fails it returns 0 bytes and the error, wrapped
  with the operation and the path; when it succeeds it returns the count the reader gave,
  with the reader's error or else the error of closing it. In every case the cursor
  afterwards is the cursor before plus the count returned, also when the reader gave an
  error, and the entry of the handle is the same.
\<close>

theorem Read_advances_cursor:
  fixes bucket :: Bucket and f :: openFile and b :: "byte list"
  defines "S \<equiv> fileListEntry_Size (f_self f)"
  defines "key \<equiv> fileListEntry_Path (f_self f)"
  defines "res \<equiv> Read bucket f b"
  shows "(b = [] \<longrightarrow> res = (f, b, 0, None))
       \<and> (b \<noteq> [] \<and> sint S \<le> sint (f_offset f) \<longrightarrow> res = (f, b, 0, Some EOF))
       \<and> (b \<noteq> [] \<and> sint (f_offset f) < sint S \<longrightarrow>
            res = (case bucket_NewRangeReader bucket key (f_offset f) (of_nat (length b)) of
                     Inl err \<Rightarrow> (f, b, 0, Some (PathError opRead key err))
                   | Inr r \<Rightarrow>
                       (f\<lparr>f_offset := f_offset f + of_nat (length (rd_data r))\<rparr>,
                        fst (Reader_Read r b), length (rd_data r),
                        if rd_err r = None then rd_close r else rd_err r)))
       \<and> f_offset (fst res) = f_offset f + of_nat (fst (snd (snd res)))
       \<and> f_self (fst res) = f_self f
       \<and> (sint (f_offset f) + int (fst (snd (snd res))) < 2 ^ 63 \<longrightarrow>
            sint (f_offset (fst res)) = sint (f_offset f) + int (fst (snd (snd res))))"
proof -
  have empty: "b = [] \<longrightarrow> res = (f, b, 0, None)"
    by (simp add: res_def Read_def)
  have past: "b \<noteq> [] \<and> sint S \<le> sint (f_offset f) \<longrightarrow> res = (f, b, 0, Some EOF)"
    by (simp add: res_def Read_def S_def)
  have ranged: "b \<noteq> [] \<and> sint (f_offset f) < sint S \<longrightarrow>
            res = (case bucket_NewRangeReader bucket key (f_offset f) (of_nat (length b)) of
                     Inl err \<Rightarrow> (f, b, 0, Some (PathError opRead key err))
                   | Inr r \<Rightarrow>
                       (f\<lparr>f_offset := f_offset f + of_nat (length (rd_data r))\<rparr>,
                        fst (Reader_Read r b), length (rd_data r),
                        if rd_err r = None then rd_close r else rd_err r))"
    by (auto simp: res_def Read_def S_def key_def Reader_Read_def Let_def split: sum.splits)
  have cursor: "f_offset (fst res) = f_offset f + of_nat (fst (snd (snd res)))
                \<and> f_self (fst res) = f_self f"
  proof (cases "b = [] \<or> sint S \<le> sint (f_offset f)")
    case True
    with empty past show ?thesis by auto
  next
    case False
    with ranged show ?thesis
      by (cases "bucket_NewRangeReader bucket key (f_offset f) (of_nat (length b))") auto
  qed
  have exact: "sint (f_offset f) + int (fst (snd (snd res))) < 2 ^ 63 \<longrightarrow>
            sint (f_offset (fst res)) = sint (f_offset f) + int (fst (snd (snd res)))"
  proof
    assume "sint (f_offset f) + int (fst (snd (snd res))) < 2 ^ 63"
    then have "sint (f_offset f + of_nat (fst (snd (snd res))))
                 = sint (f_offset f) + int (fst (snd (snd res)))"
      by (rule int64_advance)
    with cursor show "sint (f_offset (fst res)) = sint (f_offset f) + int (fst (snd (snd res)))"
      by simp
  qed
  from empty past ranged cursor exact show ?thesis by blast
qed

text \<open>
  On \<^verbatim>\<open>foo.txt\<close> with the cursor at 2: an empty buffer leaves everything as it is; a
  buffer of two bytes gets the bytes at 2 and 3 and the cursor moves to 4; with the
  cursor at 5 the read gives the end-of-stream signal; on a bucket that refuses the range
  reader the error comes back wrapped and the cursor stays.
\<close>

theorem Read_advances_cursor_witness:
  "Read testdata foo_file [] = (foo_file, [], 0, None)
   \<and> Read testdata foo_file [0, 0] = (foo_file\<lparr>f_offset := 4\<rparr>, [108, 108], 2, None)
   \<and> sint (f_offset (fst (Read testdata foo_file [0, 0]))) = 4
   \<and> Read testdata (foo_file\<lparr>f_offset := 5\<rparr>) [0, 0] = (foo_file\<lparr>f_offset := 5\<rparr>, [0, 0], 0, Some EOF)
   \<and> Read denied foo_file [0, 0] =
       (foo_file, [0, 0], 0,
        Some (PathError ''read'' ''foo.txt'' (BackendError PermissionDenied ''access denied'')))"
proof -
  have s: "fileListEntry_Size (f_self foo_file) = 5"
    "fileListEntry_Path (f_self foo_file) = ''foo.txt''" "f_offset foo_file = 2"
    "f_self (foo_file\<lparr>f_offset := 5\<rparr>) = f_self foo_file"
    by (simp_all add: foo_file_def foo_entry_def blob_object_def fileListEntry_Size_def
        fileListEntry_Path_def)
  have r: "bucket_NewRangeReader testdata ''foo.txt'' 2 2
       = Inr \<lparr>rd_data = [108, 108], rd_err = None, rd_close = None\<rparr>"
    "bucket_NewRangeReader denied ''foo.txt'' 2 2
       = Inl (BackendError PermissionDenied ''access denied'')"
    by code_simp+
  from Read_advances_cursor [where f = foo_file and b = "[]" and bucket = testdata]
  have a: "Read testdata foo_file [] = (foo_file, [], 0, None)"
    by simp
  from Read_advances_cursor [where f = foo_file and b = "[0, 0]" and bucket = testdata] r
  have b: "Read testdata foo_file [0, 0] = (foo_file\<lparr>f_offset := 4\<rparr>, [108, 108], 2, None)"
    by (simp add: s Reader_Read_def)
  from b have c: "sint (f_offset (fst (Read testdata foo_file [0, 0]))) = 4"
    by simp
  from Read_advances_cursor [where f = "foo_file\<lparr>f_offset := 5\<rparr>" and b = "[0, 0]"
      and bucket = testdata]
  have d: "Read testdata (foo_file\<lparr>f_offset := 5\<rparr>) [0, 0]
             = (foo_file\<lparr>f_offset := 5\<rparr>, [0, 0], 0, Some EOF)"
    by (simp add: s)
  from Read_advances_cursor [where f = foo_file and b = "[0, 0]" and bucket = denied] r
  have e: "Read denied foo_file [0, 0] =
       (foo_file, [0, 0], 0,
        Some (PathError ''read'' ''foo.txt'' (BackendError PermissionDenied ''access denied'')))"
    by (simp add: s opRead_def)
  from a b c d e show ?thesis by simp
qed

text \<open>
  C9. \<^verbatim>\<open>ReadAt\<close> returns the handle as it got it, whatever the buffer, the offset and
  the outcome: the cursor is the same, so a \<^verbatim>\<open>Read\<close> or a \<^verbatim>\<open>Seek\<close> from the current
  position after it does what it would have done before it.
\<close>

theorem ReadAt_keeps_cursor:
  "fst (ReadAt bucket f b offset) = f
   \<and> f_offset (fst (ReadAt bucket f b offset)) = f_offset f
   \<and> Read bucket (fst (ReadAt bucket f b offset)) b2 = Read bucket f b2
   \<and> Seek (fst (ReadAt bucket f b offset)) offset2 SeekCurrent = Seek f offset2 SeekCurrent"
proof -
  have "fst (ReadAt bucket f b offset) = f"
    by (auto simp: ReadAt_def Reader_Read_def split: sum.splits)
  then show ?thesis by simp
qed

text \<open>
  On \<^verbatim>\<open>foo.txt\<close> with the cursor at 2, after a \<^verbatim>\<open>ReadAt\<close> that ends with the
  end-of-stream signal, a seek by 0 from the current position still answers 2.
\<close>

theorem ReadAt_keeps_cursor_witness:
  "snd (snd (snd (ReadAt testdata foo_file [0, 0, 0] 2))) = Some EOF
   \<and> Seek (fst (ReadAt testdata foo_file [0, 0, 0] 2)) 0 SeekCurrent = (foo_file, 2, None)"
proof -
  have a: "snd (snd (snd (ReadAt testdata foo_file [0, 0, 0] 2))) = Some EOF"
    by code_simp
  have b: "Seek foo_file 0 SeekCurrent = (foo_file, 2, None)"
    by (simp add: Seek_def foo_file_def foo_entry_def blob_object_def
        fileListEntry_Size_def fileListEntry_Path_def SeekStart_def SeekCurrent_def SeekEnd_def)
  from ReadAt_keeps_cursor [of testdata foo_file "[0, 0, 0]" 2 "[]" 0] a b
  show ?thesis by simp
qed

text \<open>
  The cursor of a handle is not negative: it is 0 in a new handle, \<^verbatim>\<open>Seek\<close> only stores
  positions between 0 and the size, and \<^verbatim>\<open>Read\<close> adds a count, which keeps it so
  unless the sum leaves the range of \<^verbatim>\<open>int64\<close>.
\<close>

lemma newOpenFile_cursor:
  "newOpenFile entry = Inr f \<Longrightarrow> sint (f_offset f) = 0"
  by (auto simp: newOpenFile_def)

lemma Seek_cursor_range:
  assumes "0 \<le> sint (f_offset f)"
  shows "0 \<le> sint (f_offset (fst (Seek f offset whence)))"
  using assms by (simp add: Seek_def Let_def not_less)

lemma Read_cursor_nonneg:
  assumes "0 \<le> sint (f_offset f)"
    and "sint (f_offset f) + int (fst (snd (snd (Read bucket f b)))) < 2 ^ 63"
  shows "0 \<le> sint (f_offset (fst (Read bucket f b)))"
proof -
  have "f_offset (fst (Read bucket f b))
          = f_offset f + of_nat (fst (snd (snd (Read bucket f b))))"
    by (auto simp: Read_def Reader_Read_def Let_def split: sum.splits)
  with int64_advance [OF assms(2)] assms(1) show ?thesis by simp
qed

section \<open>Path resolution\<close>

text \<open>A valid path is not empty and does not end in a slash, so the probe trims nothing.\<close>

lemma ValidPath_elems_last:
  "ValidPath_elems name \<Longrightarrow> name \<noteq> [] \<and> last name \<noteq> CHR ''/''"
proof (induction name rule: ValidPath_elems.induct)
  case (1 name)
  define elem where "elem = takeWhile (\<lambda>c. c \<noteq> CHR ''/'') name"
  define rest where "rest = dropWhile (\<lambda>c. c \<noteq> CHR ''/'') name"
  have split: "name = elem @ rest"
    by (simp add: elem_def rest_def)
  from "1.prems" have ok: "\<not> (elem = [] \<or> elem = ''.'' \<or> elem = ''..'')"
    and step: "rest = [] \<or> ValidPath_elems (tl rest)"
    by (auto simp: ValidPath_elems.simps [of name] Let_def elem_def rest_def split: if_splits)
  from ok have ne: "elem \<noteq> []" by simp
  show ?case
  proof (cases "rest = []")
    case True
    then have "\<forall>c \<in> set name. c \<noteq> CHR ''/''"
      by (simp add: rest_def)
    moreover from ne split have "name \<noteq> []" by simp
    ultimately show ?thesis using last_in_set by blast
  next
    case False
    with step have v: "ValidPath_elems (tl rest)" by simp
    from "1.IH" [OF elem_def rest_def ok False v]
    have tl: "tl rest \<noteq> []" "last (tl rest) \<noteq> CHR ''/''" by simp_all
    from False tl(1) have "last rest = last (tl rest)"
      by (cases rest) simp_all
    with split False tl(2) show ?thesis by simp
  qed
qed

lemma ValidPath_no_trailing_slash:
  assumes "ValidPath name"
  shows "name \<noteq> [] \<and> last name \<noteq> CHR ''/''"
proof (cases "name = ''.''")
  case True
  then show ?thesis by simp
next
  case False
  with assms have "ValidPath_elems name" by (simp add: ValidPath_def)
  then show ?thesis by (rule ValidPath_elems_last)
qed

lemma TrimSuffix_slash_id:
  assumes "name \<noteq> []" "last name \<noteq> CHR ''/''"
  shows "TrimSuffix name ''/'' = name"
proof -
  from assms(1) obtain xs x where nm: "name = xs @ [x]"
    by (cases name rule: rev_cases) auto
  then have "drop (length name - 1) name = [last name]"
    by simp
  with assms(2) show ?thesis by (simp add: TrimSuffix_def)
qed

lemma searchDir_ValidPath:
  assumes "ValidPath name"
  shows "searchDir bucket name =
     (case fst (iter_Next (bucket_List bucket name ''/'')) of
        Inl err \<Rightarrow> if err = EOF then Inl ErrNotExist else Inl err
      | Inr ob \<Rightarrow> if Key ob = name @ ''/'' then Inr \<lparr>obj = ob\<rparr> else Inl ErrNotExist)"
proof -
  from ValidPath_no_trailing_slash [OF assms]
  have "TrimSuffix name ''/'' = name" by (simp add: TrimSuffix_slash_id)
  then show ?thesis by (simp add: searchDir_def Let_def)
qed

lemma lookup_falls_back:
  assumes "ValidPath name" "name \<noteq> ''.''" "bucket_Attributes bucket name = Inl err"
  shows "lookup bucket name = searchDir bucket name"
  using assms by (simp add: lookup_def)

text \<open>
  C8. For a valid path other than the root whose attributes fetch fails, resolution lists
  the keys with the path as prefix and \<^verbatim>\<open>/\<close> as delimiter and looks at the first result
  only. An empty listing gives NotExist. A first result that is an error other than the
  end of the listing is returned as it is. A first object whose key is the path followed
  by \<^verbatim>\<open>/\<close> becomes the Entry; when the listing gave it as a directory result, as a
  delimiter listing does for a key that has the delimiter after the prefix, the Entry is a
  directory Entry with that key, and \<^verbatim>\<open>Open\<close> goes on to build a directory handle from it.
  Any other first object gives NotExist. The results after the first play no part.
\<close>

theorem lookup_directory_probe:
  fixes bucket :: Bucket and name :: string
  assumes valid: "ValidPath name" and nonroot: "name \<noteq> ''.''"
    and nofile: "bucket_Attributes bucket name = Inl err"
  defines "listing \<equiv> bucket_List bucket name ''/''"
  shows "(listing = [] \<longrightarrow> lookup bucket name = Inl ErrNotExist)
       \<and> (\<forall>e rest. listing = Inl e # rest \<longrightarrow>
             lookup bucket name = (if e = EOF then Inl ErrNotExist else Inl e))
       \<and> (\<forall>ob rest. listing = Inr ob # rest \<and> Key ob = name @ ''/'' \<longrightarrow>
             lookup bucket name = Inr \<lparr>obj = ob\<rparr>)
       \<and> (\<forall>ob rest. listing = Inr ob # rest \<and> Key ob = name @ ''/'' \<and> IsDir ob \<longrightarrow>
             (\<exists>e. lookup bucket name = Inr e \<and> fileListEntry_IsDir e
                  \<and> fileListEntry_Path e = name @ ''/''
                  \<and> Open bucket name =
                      (case newOpenDir e bucket of
                         Inl err \<Rightarrow> Inl (PathError opOpen name err)
                       | Inr dir \<Rightarrow> Inr (OpenDir dir))))
       \<and> (\<forall>ob rest. listing = Inr ob # rest \<and> Key ob \<noteq> name @ ''/'' \<longrightarrow>
             lookup bucket name = Inl ErrNotExist)"
proof -
  have l: "lookup bucket name =
     (case fst (iter_Next listing) of
        Inl e \<Rightarrow> if e = EOF then Inl ErrNotExist else Inl e
      | Inr ob \<Rightarrow> if Key ob = name @ ''/'' then Inr \<lparr>obj = ob\<rparr> else Inl ErrNotExist)"
    unfolding listing_def
    using lookup_falls_back [OF valid nonroot nofile] searchDir_ValidPath [OF valid]
    by simp
  have empty: "listing = [] \<longrightarrow> lookup bucket name = Inl ErrNotExist"
    by (simp add: l)
  have failure: "\<forall>e rest. listing = Inl e # rest \<longrightarrow>
             lookup bucket name = (if e = EOF then Inl ErrNotExist else Inl e)"
    by (simp add: l)
  have entry: "\<forall>ob rest. listing = Inr ob # rest \<and> Key ob = name @ ''/'' \<longrightarrow>
             lookup bucket name = Inr \<lparr>obj = ob\<rparr>"
    by (simp add: l)
  have other: "\<forall>ob rest. listing = Inr ob # rest \<and> Key ob \<noteq> name @ ''/'' \<longrightarrow>
             lookup bucket name = Inl ErrNotExist"
    by (simp add: l)
  have directory: "\<forall>ob rest. listing = Inr ob # rest \<and> Key ob = name @ ''/'' \<and> IsDir ob \<longrightarrow>
             (\<exists>e. lookup bucket name = Inr e \<and> fileListEntry_IsDir e
                  \<and> fileListEntry_Path e = name @ ''/''
                  \<and> Open bucket name =
                      (case newOpenDir e bucket of
                         Inl err \<Rightarrow> Inl (PathError opOpen name err)
                       | Inr dir \<Rightarrow> Inr (OpenDir dir)))"
  proof (intro allI impI)
    fix ob rest
    assume h: "listing = Inr ob # rest \<and> Key ob = name @ ''/'' \<and> IsDir ob"
    with entry have found: "lookup bucket name = Inr \<lparr>obj = ob\<rparr>" by blast
    from h have flag: "fileListEntry_IsDir \<lparr>obj = ob\<rparr>"
      by (simp add: fileListEntry_IsDir_def)
    from h have key: "fileListEntry_Path \<lparr>obj = ob\<rparr> = name @ ''/''"
      by (simp add: fileListEntry_Path_def)
    from found flag have "Open bucket name =
                      (case newOpenDir \<lparr>obj = ob\<rparr> bucket of
                         Inl err \<Rightarrow> Inl (PathError opOpen name err)
                       | Inr dir \<Rightarrow> Inr (OpenDir dir))"
      by (simp add: Open_def)
    with found flag key show "\<exists>e. lookup bucket name = Inr e \<and> fileListEntry_IsDir e
                  \<and> fileListEntry_Path e = name @ ''/''
                  \<and> Open bucket name =
                      (case newOpenDir e bucket of
                         Inl err \<Rightarrow> Inl (PathError opOpen name err)
                       | Inr dir \<Rightarrow> Inr (OpenDir dir))"
      by blast
  qed
  from empty failure entry directory other show ?thesis by blast
qed

text \<open>
  In the small bucket: \<^verbatim>\<open>dir1\<close> is no object and its listing starts with the directory
  result \<^verbatim>\<open>dir1/\<close>, so it resolves to that directory Entry and opens as a directory
  handle; \<^verbatim>\<open>dir1/nope.txt\<close> has an empty listing; with listings that break, the listing
  error comes back.
\<close>

theorem lookup_directory_probe_witness:
  "ValidPath ''dir1'' \<and> ''dir1'' \<noteq> ''.''
   \<and> bucket_Attributes testdata ''dir1'' = Inl (BackendError NotFound ''blob not found'')
   \<and> bucket_List testdata ''dir1'' ''/'' = [Inr (dir_object ''dir1/'')]
   \<and> Key (dir_object ''dir1/'') = ''dir1'' @ ''/'' \<and> IsDir (dir_object ''dir1/'')
   \<and> lookup testdata ''dir1'' = Inr \<lparr>obj = dir_object ''dir1/''\<rparr>
   \<and> fileListEntry_IsDir \<lparr>obj = dir_object ''dir1/''\<rparr>
   \<and> Open testdata ''dir1'' =
       Inr (OpenDir \<lparr>d_self = \<lparr>obj = dir_object ''dir1/''\<rparr>,
                     d_entries = [\<lparr>obj = dir_object ''dir1/dir1-1/''\<rparr>,
                                  \<lparr>obj = blob_object ''dir1/hoge.txt'' 4\<rparr>],
                     d_offset = 0\<rparr>)
   \<and> lookup testdata ''dir1/nope.txt'' = Inl ErrNotExist
   \<and> lookup broken_listing ''dir1'' = Inl (BackendError Internal ''connection reset'')"
proof -
  have v: "ValidPath ''dir1''" "ValidPath ''dir1/nope.txt''" by code_simp+
  have n: "''dir1'' \<noteq> ''.''" "''dir1/nope.txt'' \<noteq> ''.''" by simp_all
  have a: "bucket_Attributes testdata ''dir1'' = Inl (BackendError NotFound ''blob not found'')"
    "bucket_Attributes testdata ''dir1/nope.txt'' = Inl (BackendError NotFound ''blob not found'')"
    "bucket_Attributes broken_listing ''dir1'' = Inl (BackendError NotFound ''blob not found'')"
    by code_simp+
  have l: "bucket_List testdata ''dir1'' ''/'' = [Inr (dir_object ''dir1/'')]"
    "bucket_List testdata ''dir1/nope.txt'' ''/'' = []"
    "bucket_List broken_listing ''dir1'' ''/'' = [Inl (BackendError Internal ''connection reset'')]"
    by code_simp+
  have k: "Key (dir_object ''dir1/'') = ''dir1'' @ ''/''" "IsDir (dir_object ''dir1/'')"
    by (simp_all add: dir_object_def)
  have c: "newOpenDir \<lparr>obj = dir_object ''dir1/''\<rparr> testdata
           = Inr \<lparr>d_self = \<lparr>obj = dir_object ''dir1/''\<rparr>,
                  d_entries = [\<lparr>obj = dir_object ''dir1/dir1-1/''\<rparr>,
                               \<lparr>obj = blob_object ''dir1/hoge.txt'' 4\<rparr>],
                  d_offset = 0\<rparr>"
    by code_simp
  note t = lookup_directory_probe [OF v(1) n(1) a(1)]
  from t l(1) k
  have d: "lookup testdata ''dir1'' = Inr \<lparr>obj = dir_object ''dir1/''\<rparr>"
    by simp
  from t l(1) k obtain e where e: "lookup testdata ''dir1'' = Inr e" "fileListEntry_IsDir e"
    "Open testdata ''dir1'' =
       (case newOpenDir e testdata of
          Inl err \<Rightarrow> Inl (PathError opOpen ''dir1'' err)
        | Inr dir \<Rightarrow> Inr (OpenDir dir))"
    by auto
  from e(1) d have ee: "e = \<lparr>obj = dir_object ''dir1/''\<rparr>" by simp
  from e(2) ee have g: "fileListEntry_IsDir \<lparr>obj = dir_object ''dir1/''\<rparr>" by simp
  from e(3) ee c have o: "Open testdata ''dir1'' =
       Inr (OpenDir \<lparr>d_self = \<lparr>obj = dir_object ''dir1/''\<rparr>,
                     d_entries = [\<lparr>obj = dir_object ''dir1/dir1-1/''\<rparr>,
                                  \<lparr>obj = blob_object ''dir1/hoge.txt'' 4\<rparr>],
                     d_offset = 0\<rparr>)"
    by simp
  from lookup_directory_probe [OF v(2) n(2) a(2)] l(2)
  have x: "lookup testdata ''dir1/nope.txt'' = Inl ErrNotExist"
    by simp
  from lookup_directory_probe [OF v(1) n(1) a(3)] l(3)
  have y: "lookup broken_listing ''dir1'' = Inl (BackendError Internal ''connection reset'')"
    by simp
  from v n a(1) l(1) k d g o x y show ?thesis by simp
qed

text \<open>
  C3, as the code has it. For a valid path other than the root, when the attributes fetch
  fails with any error at all, \<^verbatim>\<open>lookup\<close> drops that error and returns what the directory
  probe returns: the result is the same whichever error the fetch failed with.
\<close>

theorem lookup_drops_attributes_error:
  fixes bucket :: Bucket and name :: string
  assumes valid: "ValidPath name" and nonroot: "name \<noteq> ''.''"
    and failed: "bucket_Attributes bucket name = Inl err"
  shows "lookup bucket name = searchDir bucket name
       \<and> lookup bucket name = lookup (bucket\<lparr>bucket_Attributes := \<lambda>key. Inl err'\<rparr>) name"
proof
  show first: "lookup bucket name = searchDir bucket name"
    using valid nonroot failed by (simp add: lookup_def)
  have "lookup (bucket\<lparr>bucket_Attributes := \<lambda>key. Inl err'\<rparr>) name
          = searchDir (bucket\<lparr>bucket_Attributes := \<lambda>key. Inl err'\<rparr>) name"
    using valid nonroot by (simp add: lookup_def)
  also have "\<dots> = searchDir bucket name"
    by (simp add: searchDir_def)
  finally show "lookup bucket name = lookup (bucket\<lparr>bucket_Attributes := \<lambda>key. Inl err'\<rparr>) name"
    using first by simp
qed

text \<open>
  In the small bucket \<^verbatim>\<open>dir1\<close> resolves to the directory after a not-found error, and
  to the same directory when the fetch is refused instead.
\<close>

theorem lookup_drops_attributes_error_witness:
  "ValidPath ''dir1'' \<and> ''dir1'' \<noteq> ''.''
   \<and> bucket_Attributes testdata ''dir1'' = Inl (BackendError NotFound ''blob not found'')
   \<and> lookup testdata ''dir1'' = Inr \<lparr>obj = dir_object ''dir1/''\<rparr>
   \<and> lookup (testdata\<lparr>bucket_Attributes :=
               \<lambda>key. Inl (BackendError PermissionDenied ''access denied'')\<rparr>) ''dir1''
       = Inr \<lparr>obj = dir_object ''dir1/''\<rparr>"
proof -
  have v: "ValidPath ''dir1''" by code_simp
  have n: "''dir1'' \<noteq> ''.''" by simp
  have a: "bucket_Attributes testdata ''dir1'' = Inl (BackendError NotFound ''blob not found'')"
    by code_simp
  have s: "searchDir testdata ''dir1'' = Inr \<lparr>obj = dir_object ''dir1/''\<rparr>"
    by code_simp
  note t = lookup_drops_attributes_error [OF v n a,
      of "BackendError PermissionDenied ''access denied''"]
  from t s have d: "lookup testdata ''dir1'' = Inr \<lparr>obj = dir_object ''dir1/''\<rparr>"
    by simp
  from t have "lookup (testdata\<lparr>bucket_Attributes :=
               \<lambda>key. Inl (BackendError PermissionDenied ''access denied'')\<rparr>) ''dir1''
       = lookup testdata ''dir1''"
    by (rule conjunct2 [THEN sym])
  also note d
  finally show ?thesis using v n a d by simp
qed

text \<open>
  C3 as stated fails: on a bucket that refuses the attributes fetch and lists nothing,
  \<^verbatim>\<open>lookup\<close> answers NotExist, and \<^verbatim>\<open>Open\<close> wraps NotExist, not the refusal.
\<close>

theorem lookup_backend_failure_counterexample:
  "ValidPath ''foo.txt'' \<and> ''foo.txt'' \<noteq> ''.''
   \<and> bucket_Attributes denied ''foo.txt'' = Inl (BackendError PermissionDenied ''access denied'')
   \<and> lookup denied ''foo.txt'' = Inl ErrNotExist
   \<and> Open denied ''foo.txt'' = Inl (PathError ''open'' ''foo.txt'' ErrNotExist)"
  by code_simp

section \<open>The key of a resolved Entry\<close>

text \<open>
  C4, as the code has it. The key of an Entry that \<^verbatim>\<open>lookup\<close> returns is empty for the
  root, the path itself for an object (attributes fetched), and the path followed by
  \<^verbatim>\<open>/\<close> for a directory found by the probe. So the key ends in \<^verbatim>\<open>/\<close> exactly for the
  Entries that come from the probe, and never for the root or a file.
\<close>

theorem lookup_key_form:
  fixes bucket :: Bucket and name :: string
  assumes found: "lookup bucket name = Inr e"
  shows "fileListEntry_Path e =
           (if name = ''.'' then []
            else if isl (bucket_Attributes bucket name) then name @ ''/'' else name)
       \<and> ((fileListEntry_Path e \<noteq> [] \<and> last (fileListEntry_Path e) = CHR ''/'')
            \<longleftrightarrow> (name \<noteq> ''.'' \<and> isl (bucket_Attributes bucket name)))"
proof -
  from found have valid: "ValidPath name"
    by (auto simp: lookup_def split: if_splits)
  show ?thesis
  proof (cases "name = ''.''")
    case True
    with found valid have "e = rootFile" by (simp add: lookup_def)
    with True show ?thesis by (simp add: rootFile_def fileListEntry_Path_def)
  next
    case nonroot: False
    from ValidPath_no_trailing_slash [OF valid]
    have shape: "name \<noteq> []" "last name \<noteq> CHR ''/''" by simp_all
    show ?thesis
    proof (cases "bucket_Attributes bucket name")
      case (Inr attr)
      with found valid nonroot have "fileListEntry_Path e = name"
        by (auto simp: lookup_def fileListEntry_Path_def)
      with Inr nonroot shape show ?thesis by simp
    next
      case (Inl err)
      with found valid nonroot have "searchDir bucket name = Inr e"
        by (simp add: lookup_def)
      then have "fileListEntry_Path e = name @ ''/''"
        unfolding searchDir_ValidPath [OF valid]
        by (auto simp: fileListEntry_Path_def split: sum.splits if_splits)
      with Inl nonroot show ?thesis by simp
    qed
  qed
qed

text \<open>
  In the small bucket: the file \<^verbatim>\<open>foo.txt\<close> keeps its path as key, the directory
  \<^verbatim>\<open>dir1\<close> gets the key \<^verbatim>\<open>dir1/\<close>, the root gets the empty key.
\<close>

theorem lookup_key_form_witness:
  "lookup testdata ''foo.txt'' = Inr foo_entry \<and> fileListEntry_Path foo_entry = ''foo.txt''
   \<and> lookup testdata ''dir1'' = Inr \<lparr>obj = dir_object ''dir1/''\<rparr>
   \<and> fileListEntry_Path \<lparr>obj = dir_object ''dir1/''\<rparr> = ''dir1/''
   \<and> lookup testdata ''.'' = Inr rootFile \<and> fileListEntry_Path rootFile = []"
proof -
  have a: "lookup testdata ''foo.txt'' = Inr foo_entry" by code_simp
  have b: "lookup testdata ''dir1'' = Inr \<lparr>obj = dir_object ''dir1/''\<rparr>" by code_simp
  have c: "lookup testdata ''.'' = Inr rootFile" by code_simp
  have t: "\<not> isl (bucket_Attributes testdata ''foo.txt'')"
    "isl (bucket_Attributes testdata ''dir1'')"
    by code_simp+
  from lookup_key_form [OF a] lookup_key_form [OF b] lookup_key_form [OF c] a b c t
  show ?thesis by simp
qed

text \<open>
  C4 as stated fails for every directory found by the probe: \<^verbatim>\<open>dir1\<close> resolves to an
  Entry whose stored key is \<^verbatim>\<open>dir1/\<close>.
\<close>

theorem lookup_directory_key_counterexample:
  "lookup testdata ''dir1'' = Inr \<lparr>obj = dir_object ''dir1/''\<rparr>
   \<and> Key (obj \<lparr>obj = dir_object ''dir1/''\<rparr>) = ''dir1/''
   \<and> last (Key (obj \<lparr>obj = dir_object ''dir1/''\<rparr>)) = CHR ''/''"
  by code_simp

text \<open>
  The displayed name does not show the difference: \<^verbatim>\<open>Name\<close> drops one trailing slash
  before it takes the last piece of the key, and the split always has a last piece.
\<close>

lemma Split_slash_nonempty: "Split_slash s \<noteq> []"
  by (induction s) (auto split: list.splits)

lemma Name_of_directory_key:
  assumes "name \<noteq> []" "last name \<noteq> CHR ''/''"
  shows "fileListEntry_Name \<lparr>obj = ob\<lparr>Key := name @ ''/''\<rparr>\<rparr>
         = fileListEntry_Name \<lparr>obj = ob\<lparr>Key := name\<rparr>\<rparr>"
  using assms by (simp add: fileListEntry_Name_def Let_def butlast_append)

lemma Name_examples:
  "fileListEntry_Name \<lparr>obj = dir_object ''dir1/dir1-1/''\<rparr> = ''dir1-1''"
  "fileListEntry_Name \<lparr>obj = blob_object ''dir1/hoge.txt'' 4\<rparr> = ''hoge.txt''"
  "fileListEntry_Name rootFile = ''.''"
  by code_simp+

section \<open>Reading a whole file\<close>

lemma Reader_Read_length:
  "length (fst (Reader_Read r b)) = length b"
  by (simp add: Reader_Read_def)

lemma ReadAt_buffer_length:
  "length (fst (snd (ReadAt bucket f b offset))) = length b"
proof (cases "bucket_NewRangeReader bucket (fileListEntry_Path (f_self f)) offset
                (of_nat (length b))")
  case (Inl err)
  then show ?thesis by (simp add: ReadAt_def)
next
  case (Inr r)
  obtain b' sz err where rr: "Reader_Read r b = (b', sz, err)"
    by (cases "Reader_Read r b") auto
  with Reader_Read_length [of r b] have "length b' = length b" by simp
  with Inr rr show ?thesis by (simp add: ReadAt_def)
qed

lemma Open_file:
  assumes "lookup bucket name = Inr e" "\<not> fileListEntry_IsDir e"
  shows "Open bucket name = Inr (OpenFile \<lparr>f_self = e, f_offset = 0\<rparr>)"
  using assms by (simp add: Open_def newOpenFile_def)

lemma Open_directory:
  assumes "lookup bucket name = Inr e" "fileListEntry_IsDir e"
  shows "Open bucket name =
     (case newOpenDir e bucket of
        Inl err \<Rightarrow> Inl (PathError opOpen name err)
      | Inr dir \<Rightarrow> Inr (OpenDir dir))"
  using assms by (simp add: Open_def)

text \<open>
  C5, as the code has it. When the path resolves to a directory Entry, \<^verbatim>\<open>ReadFile\<close>
  fails: with the ``is a directory'' error when the children of the directory can be
  listed, and with the listing error, wrapped as an error of \<^verbatim>\<open>open\<close>, when they cannot.
  When the path resolves to a file Entry of a size that is not negative, the buffer has
  the length of that size, \<^verbatim>\<open>ReadAt\<close> is applied once, to a fresh handle and that buffer
  at offset 0, and keeps the length of the buffer; \<^verbatim>\<open>ReadFile\<close> returns the buffer when
  \<^verbatim>\<open>ReadAt\<close> gives the end-of-stream signal, and no bytes together with the error of
  \<^verbatim>\<open>ReadAt\<close> otherwise.
\<close>

theorem ReadFile_outcome:
  fixes bucket :: Bucket and name :: string
  assumes found: "lookup bucket name = Inr e"
  defines "f \<equiv> \<lparr>f_self = e, f_offset = 0\<rparr>"
  defines "b \<equiv> replicate (nat (sint (fileListEntry_Size e))) (0 :: byte)"
  defines "res \<equiv> ReadAt bucket f b 0"
  shows "(fileListEntry_IsDir e \<longrightarrow>
            ReadFile bucket name =
              (case newOpenDir e bucket of
                 Inl err \<Rightarrow> Some ([], Some (PathError opOpen name err))
               | Inr d \<Rightarrow> Some ([], Some (PathError opRead name (ErrorString ''is a directory'')))))
       \<and> (\<not> fileListEntry_IsDir e \<and> 0 \<le> sint (fileListEntry_Size e) \<longrightarrow>
            int (length b) = sint (fileListEntry_Size e)
            \<and> length (fst (snd res)) = length b
            \<and> ReadFile bucket name =
                (if snd (snd (snd res)) = Some EOF then Some (fst (snd res), None)
                 else Some ([], snd (snd (snd res)))))"
proof (intro conjI impI)
  assume dir: "fileListEntry_IsDir e"
  show "ReadFile bucket name =
              (case newOpenDir e bucket of
                 Inl err \<Rightarrow> Some ([], Some (PathError opOpen name err))
               | Inr d \<Rightarrow> Some ([], Some (PathError opRead name (ErrorString ''is a directory''))))"
    by (simp add: ReadFile_def Open_directory [OF found dir] split: sum.splits)
next
  assume isfile: "\<not> fileListEntry_IsDir e \<and> 0 \<le> sint (fileListEntry_Size e)"
  then show "int (length b) = sint (fileListEntry_Size e)"
    by (simp add: b_def)
next
  show "length (fst (snd res)) = length b"
    unfolding res_def by (rule ReadAt_buffer_length)
next
  assume isfile: "\<not> fileListEntry_IsDir e \<and> 0 \<le> sint (fileListEntry_Size e)"
  then have op: "Open bucket name = Inr (OpenFile f)"
    unfolding f_def using found by (simp add: Open_file)
  obtain f' b' n err where r: "ReadAt bucket f b 0 = (f', b', n, err)"
    by (cases "ReadAt bucket f b 0") auto
  from isfile have "ReadFile bucket name = (if err \<noteq> Some EOF then Some ([], err) else Some (b', None))"
    using r by (simp add: ReadFile_def op f_def b_def Let_def)
  with r show "ReadFile bucket name =
                (if snd (snd (snd res)) = Some EOF then Some (fst (snd res), None)
                 else Some ([], snd (snd (snd res))))"
    by (simp add: res_def)
qed

text \<open>
  In the small bucket \<^verbatim>\<open>foo.txt\<close> is read whole, and \<^verbatim>\<open>dir1\<close>, whose children can be
  listed, is refused as a directory.
\<close>

theorem ReadFile_outcome_witness:
  "lookup testdata ''foo.txt'' = Inr foo_entry \<and> \<not> fileListEntry_IsDir foo_entry
   \<and> 0 \<le> sint (fileListEntry_Size foo_entry)
   \<and> ReadFile testdata ''foo.txt'' = Some ([104, 101, 108, 108, 111], None)
   \<and> lookup testdata ''dir1'' = Inr \<lparr>obj = dir_object ''dir1/''\<rparr>
   \<and> fileListEntry_IsDir \<lparr>obj = dir_object ''dir1/''\<rparr>
   \<and> ReadFile testdata ''dir1'' =
       Some ([], Some (PathError ''read'' ''dir1'' (ErrorString ''is a directory'')))"
proof -
  have a: "lookup testdata ''foo.txt'' = Inr foo_entry" by code_simp
  have b: "lookup testdata ''dir1'' = Inr \<lparr>obj = dir_object ''dir1/''\<rparr>" by code_simp
  have fa: "\<not> fileListEntry_IsDir foo_entry" "0 \<le> sint (fileListEntry_Size foo_entry)"
    "fileListEntry_IsDir \<lparr>obj = dir_object ''dir1/''\<rparr>"
    by (simp_all add: foo_entry_def blob_object_def dir_object_def fileListEntry_IsDir_def
        fileListEntry_Size_def)
  have r: "ReadAt testdata \<lparr>f_self = foo_entry, f_offset = 0\<rparr>
             (replicate (nat (sint (fileListEntry_Size foo_entry))) 0) 0
           = (\<lparr>f_self = foo_entry, f_offset = 0\<rparr>, [104, 101, 108, 108, 111], 5, Some EOF)"
    by code_simp
  have d: "newOpenDir \<lparr>obj = dir_object ''dir1/''\<rparr> testdata
           = Inr \<lparr>d_self = \<lparr>obj = dir_object ''dir1/''\<rparr>,
                  d_entries = [\<lparr>obj = dir_object ''dir1/dir1-1/''\<rparr>,
                               \<lparr>obj = blob_object ''dir1/hoge.txt'' 4\<rparr>],
                  d_offset = 0\<rparr>"
    by code_simp
  from ReadFile_outcome [OF a] fa r
  have x: "ReadFile testdata ''foo.txt'' = Some ([104, 101, 108, 108, 111], None)"
    by simp
  from ReadFile_outcome [OF b] fa d
  have y: "ReadFile testdata ''dir1'' =
       Some ([], Some (PathError ''read'' ''dir1'' (ErrorString ''is a directory'')))"
    by (simp add: opRead_def)
  from a b fa x y show ?thesis by simp
qed

text \<open>
  C5 as stated fails where the path resolves to a directory whose children cannot be
  listed: on a bucket whose listings break, the root resolves to a directory Entry and
  \<^verbatim>\<open>ReadFile\<close> fails with the listing error of \<^verbatim>\<open>open\<close>, not with ``is a directory''.
\<close>

theorem ReadFile_directory_counterexample:
  "lookup broken_listing ''.'' = Inr rootFile \<and> fileListEntry_IsDir rootFile
   \<and> ReadFile broken_listing ''.'' =
       Some ([], Some (PathError ''open'' ''.'' (BackendError Internal ''connection reset'')))"
  by code_simp

text \<open>
  C10. When the path resolves to a file Entry whose size is 0, the buffer is empty, the
  one \<^verbatim>\<open>ReadAt\<close> returns 0 bytes and no error, not the end-of-stream signal, and
  \<^verbatim>\<open>ReadFile\<close> returns no bytes and no error.
\<close>

theorem ReadFile_empty_file:
  fixes bucket :: Bucket and name :: string
  assumes found: "lookup bucket name = Inr e" and isfile: "\<not> fileListEntry_IsDir e"
    and empty: "fileListEntry_Size e = 0"
  shows "ReadFile bucket name = Some ([], None)
       \<and> replicate (nat (sint (fileListEntry_Size e))) (0 :: byte) = []
       \<and> ReadAt bucket \<lparr>f_self = e, f_offset = 0\<rparr>
            (replicate (nat (sint (fileListEntry_Size e))) 0) 0
          = (\<lparr>f_self = e, f_offset = 0\<rparr>, [], 0, None)"
proof -
  have r: "ReadAt bucket \<lparr>f_self = e, f_offset = 0\<rparr> [] 0 = (\<lparr>f_self = e, f_offset = 0\<rparr>, [], 0, None)"
    by (simp add: ReadAt_def)
  from found isfile have "Open bucket name = Inr (OpenFile \<lparr>f_self = e, f_offset = 0\<rparr>)"
    by (rule Open_file)
  with empty r have "ReadFile bucket name = Some ([], None)"
    by (simp add: ReadFile_def)
  with empty r show ?thesis by simp
qed

text \<open>In the small bucket \<^verbatim>\<open>empty.txt\<close> has size 0 and reads as no bytes with no error.\<close>

theorem ReadFile_empty_file_witness:
  "lookup testdata ''empty.txt'' = Inr \<lparr>obj = blob_object ''empty.txt'' 0\<rparr>
   \<and> \<not> fileListEntry_IsDir \<lparr>obj = blob_object ''empty.txt'' 0\<rparr>
   \<and> fileListEntry_Size \<lparr>obj = blob_object ''empty.txt'' 0\<rparr> = 0
   \<and> ReadFile testdata ''empty.txt'' = Some ([], None)"
proof -
  have a: "lookup testdata ''empty.txt'' = Inr \<lparr>obj = blob_object ''empty.txt'' 0\<rparr>"
    by code_simp
  have b: "\<not> fileListEntry_IsDir \<lparr>obj = blob_object ''empty.txt'' 0\<rparr>"
    by (simp add: fileListEntry_IsDir_def blob_object_def)
  have c: "fileListEntry_Size \<lparr>obj = blob_object ''empty.txt'' 0\<rparr> = 0"
    by (simp add: fileListEntry_Size_def blob_object_def)
  from ReadFile_empty_file [OF a b c] a b c show ?thesis by simp
qed

end
